theory Spec2Isabelle
  imports Main "HOL-Library.Word"
begin

section \<open>Byte slices and the heap of backing arrays\<close>

text \<open>
  Go's \<^verbatim>\<open>[]byte\<close> is a header (pointer, length, capacity) over a backing array that
  may be shared with other slices. The heap is the list of all backing arrays of positive
  size allocated so far; the address of such an array is its index in that list, so
  allocation appends and the next fresh address is the length of the heap. Allocations of
  size zero do not get an array of their own: the runtime hands out one address, the same
  for all of them (\<^verbatim>\<open>runtime.zerobase\<close>), behind which there is no element. A slice
  header names what it points to (\<open>None\<close> for the nil slice), the offset of its first
  element in that array, its length and its capacity. Lengths are never negative in Go, so
  header fields are naturals; the builtin \<^verbatim>\<open>len\<close> returns them as an \<^verbatim>\<open>int\<close>.
\<close>

type_synonym byte = "8 word"

type_synonym heap = "byte list list"

datatype pointer = Zerobase | Arr nat

record slice =
  array :: "pointer option"
  off :: nat
  len :: nat
  cap :: nat

definition nil_slice :: slice where
  "nil_slice = \<lparr>array = None, off = 0, len = 0, cap = 0\<rparr>"

datatype panic = MakesliceLenOutOfRange | IndexOutOfRange | NilDereference

text \<open>The elements a slice shows, read from the heap.\<close>

definition slice_bytes :: "heap \<Rightarrow> slice \<Rightarrow> byte list" where
  "slice_bytes h s =
     (case array s of
        None \<Rightarrow> []
      | Some Zerobase \<Rightarrow> []
      | Some (Arr a) \<Rightarrow> if a < length h then take (len s) (drop (off s) (h ! a)) else [])"

text \<open>
  A slice header is valid in a heap when it lies inside an allocated array. Go's memory
  safety keeps every slice value valid; the nil slice and the slices at the zero-size
  address have capacity zero.
\<close>

definition valid_slice :: "heap \<Rightarrow> slice \<Rightarrow> bool" where
  "valid_slice h s =
     (len s \<le> cap s \<and>
      (case array s of
         None \<Rightarrow> cap s = 0
       | Some Zerobase \<Rightarrow> cap s = 0
       | Some (Arr a) \<Rightarrow> a < length h \<and> off s + cap s \<le> length (h ! a)))"

text \<open>
  \<^verbatim>\<open>make([]byte, n)\<close>, for a slice that escapes to the heap as the one in \<^verbatim>\<open>dup\<close>
  does: for positive \<open>n\<close> a new zeroed array of \<open>n\<close> bytes and a slice over all of it;
  for \<open>n = 0\<close> a non-nil slice of length and capacity zero at the shared zero-size address,
  with no array allocated. A negative length panics. (Memory exhaustion is outside the
  model.)
\<close>

definition make_bytes :: "int \<Rightarrow> heap \<Rightarrow> panic + slice \<times> heap" where
  "make_bytes n h =
     (if n < 0 then Inl MakesliceLenOutOfRange
      else if n = 0 then Inr (\<lparr>array = Some Zerobase, off = 0, len = 0, cap = 0\<rparr>, h)
      else Inr (\<lparr>array = Some (Arr (length h)), off = 0, len = nat n, cap = nat n\<rparr>,
                h @ [replicate (nat n) 0]))"

text \<open>
  \<^verbatim>\<open>copy(dst, src)\<close>: copies \<open>min (len dst) (len src)\<close> elements, reading the source
  before writing (the slices may overlap), and returns that count. It never panics. Nothing
  is written through nil or the zero-size address, whose slices have no element.
\<close>

definition copy_bytes :: "slice \<Rightarrow> slice \<Rightarrow> heap \<Rightarrow> int \<times> heap" where
  "copy_bytes dst src h =
     (let n = min (len dst) (len src) in
      case array dst of
        None \<Rightarrow> (int n, h)
      | Some Zerobase \<Rightarrow> (int n, h)
      | Some (Arr a) \<Rightarrow>
          (int n,
           h[a := take (off dst) (h ! a) @ take n (slice_bytes h src)
                  @ drop (off dst + n) (h ! a)]))"

text \<open>\<^verbatim>\<open>s[i] = v\<close>: an index outside \<open>0 \<le> i < len s\<close> panics.\<close>

definition store :: "slice \<Rightarrow> int \<Rightarrow> byte \<Rightarrow> heap \<Rightarrow> panic + heap" where
  "store s i v h =
     (if i < 0 \<or> int (len s) \<le> i then Inl IndexOutOfRange
      else case array s of
             None \<Rightarrow> Inl IndexOutOfRange
           | Some Zerobase \<Rightarrow> Inl IndexOutOfRange
           | Some (Arr a) \<Rightarrow> Inr (h[a := (h ! a)[off s + nat i := v]]))"

text \<open>
  The heap after the array behind a pointer has been given the content \<open>arr\<close>. Behind nil
  and behind the zero-size address there is nothing to write.
\<close>

definition write_array :: "pointer option \<Rightarrow> byte list \<Rightarrow> heap \<Rightarrow> heap" where
  "write_array p arr h =
     (case p of
        None \<Rightarrow> h
      | Some Zerobase \<Rightarrow> h
      | Some (Arr a) \<Rightarrow> h[a := arr])"

text \<open>
  \<^verbatim>\<open>
  func dup(src []byte) []byte {
      dst := make([]byte, len(src))
      copy(dst, src)
      return dst
  }
  \<close>
\<close>

definition dup :: "slice \<Rightarrow> heap \<Rightarrow> panic + slice \<times> heap" where
  "dup src h =
     (case make_bytes (int (len src)) h of
        Inl p \<Rightarrow> Inl p
      | Inr (dst, h1) \<Rightarrow> (case copy_bytes dst src h1 of (n, h2) \<Rightarrow> Inr (dst, h2)))"


section \<open>The connection and its metadata\<close>

text \<open>
  \<^verbatim>\<open>network.Stream\<close> and \<^verbatim>\<open>ma.Multiaddr\<close> are interfaces of imported packages. The
  state of the object behind \<^verbatim>\<open>c.stream\<close> has type \<open>'s\<close>, the value returned by
  \<^verbatim>\<open>Conn()\<close> type \<open>'c\<close>, addresses type \<open>'a\<close> and the result of \<^verbatim>\<open>Close()\<close>
  type \<open>'e\<close>; the four interface methods the source calls are parameters. The two address
  getters and \<^verbatim>\<open>Conn()\<close> read the stream; \<^verbatim>\<open>Close()\<close> returns its result
  and the stream's next state. Receivers and the stream of an established connection are
  non-nil.
\<close>

record ('s, 'c, 'a, 'e) stream_ops =
  stream_Conn :: "'s \<Rightarrow> 'c"
  conn_RemoteMultiaddr :: "'c \<Rightarrow> 'a"
  conn_LocalMultiaddr :: "'c \<Rightarrow> 'a"
  stream_Close :: "'s \<Rightarrow> 'e \<times> 's"

record 's sshConn =
  stream :: 's
  user :: string
  sessionID :: slice
  clientVersion :: slice
  serverVersion :: slice

text \<open>
  The struct \<^verbatim>\<open>connection\<close> embeds an \<^verbatim>\<open>sshConn\<close> beside the handshake transport
  and the multiplexer, whose states have types \<open>'t\<close> and \<open>'m\<close>.
\<close>

record ('t, 's, 'm) connection =
  transport :: 't
  sshConn :: "'s sshConn"
  mux :: 'm

text \<open>
  The methods of \<^verbatim>\<open>*sshConn\<close> run against the receiver's struct and the heap that
  holds the backing arrays of its byte slices.
\<close>

record 's state =
  mem :: heap
  conn :: "'s sshConn"

text \<open>
  \<^verbatim>\<open>
  func (c *sshConn) User() string { return c.user }
  func (c *sshConn) RemoteMultiaddr() ma.Multiaddr { return c.stream.Conn().RemoteMultiaddr() }
  func (c *sshConn) LocalMultiaddr() ma.Multiaddr { return c.stream.Conn().LocalMultiaddr() }
  func (c *sshConn) SessionID() []byte { return dup(c.sessionID) }
  func (c *sshConn) ClientVersion() []byte { return dup(c.clientVersion) }
  func (c *sshConn) ServerVersion() []byte { return dup(c.serverVersion) }
  \<close>
  Each method returns its result and the state it leaves.
\<close>

definition User :: "'s state \<Rightarrow> string \<times> 's state" where
  "User w = (user (conn w), w)"

definition RemoteMultiaddr :: "('s, 'c, 'a, 'e) stream_ops \<Rightarrow> 's state \<Rightarrow> 'a \<times> 's state" where
  "RemoteMultiaddr ops w = (conn_RemoteMultiaddr ops (stream_Conn ops (stream (conn w))), w)"

definition LocalMultiaddr :: "('s, 'c, 'a, 'e) stream_ops \<Rightarrow> 's state \<Rightarrow> 'a \<times> 's state" where
  "LocalMultiaddr ops w = (conn_LocalMultiaddr ops (stream_Conn ops (stream (conn w))), w)"

definition SessionID :: "'s state \<Rightarrow> panic + slice \<times> 's state" where
  "SessionID w =
     (case dup (sessionID (conn w)) (mem w) of
        Inl p \<Rightarrow> Inl p
      | Inr (b, h) \<Rightarrow> Inr (b, w\<lparr>mem := h\<rparr>))"

definition ClientVersion :: "'s state \<Rightarrow> panic + slice \<times> 's state" where
  "ClientVersion w =
     (case dup (clientVersion (conn w)) (mem w) of
        Inl p \<Rightarrow> Inl p
      | Inr (b, h) \<Rightarrow> Inr (b, w\<lparr>mem := h\<rparr>))"

definition ServerVersion :: "'s state \<Rightarrow> panic + slice \<times> 's state" where
  "ServerVersion w =
     (case dup (serverVersion (conn w)) (mem w) of
        Inl p \<Rightarrow> Inl p
      | Inr (b, h) \<Rightarrow> Inr (b, w\<lparr>mem := h\<rparr>))"

text \<open>
  \<^verbatim>\<open>func (c *sshConn) Close() error { return c.stream.Close() }\<close> and
  \<^verbatim>\<open>func (c *connection) Close() error { return c.sshConn.stream.Close() }\<close>
\<close>

definition sshConn_Close ::
  "('s, 'c, 'a, 'e) stream_ops \<Rightarrow> 's sshConn \<Rightarrow> 'e \<times> 's sshConn" where
  "sshConn_Close ops c =
     (case stream_Close ops (stream c) of (e, s') \<Rightarrow> (e, c\<lparr>stream := s'\<rparr>))"

definition connection_Close ::
  "('s, 'c, 'a, 'e) stream_ops \<Rightarrow> ('t, 's, 'm) connection \<Rightarrow> 'e \<times> ('t, 's, 'm) connection" where
  "connection_Close ops c =
     (case stream_Close ops (stream (sshConn c)) of
        (e, s') \<Rightarrow> (e, c\<lparr>sshConn := (sshConn c)\<lparr>stream := s'\<rparr>\<rparr>))"

text \<open>The stored byte slices of an established session lie in allocated arrays.\<close>

definition valid_state :: "'s state \<Rightarrow> bool" where
  "valid_state w =
     (valid_slice (mem w) (sessionID (conn w)) \<and>
      valid_slice (mem w) (clientVersion (conn w)) \<and>
      valid_slice (mem w) (serverVersion (conn w)))"

section \<open>Channel-open rejection\<close>

text \<open>
  Modelled from the spec: the declaration of \<^verbatim>\<open>RejectionReason\<close> and its
  \<^verbatim>\<open>String\<close> method, which \<^verbatim>\<open>%s\<close> calls, are not in connection.go. The spec lists the
  reasons as administratively prohibited, connect failed, unknown channel type and
  resource shortage.
\<close>

datatype RejectionReason = Prohibited | ConnectionFailed | UnknownChannelType | ResourceShortage

fun RejectionReason_String :: "RejectionReason \<Rightarrow> string" where
  "RejectionReason_String Prohibited = ''administratively prohibited''"
| "RejectionReason_String ConnectionFailed = ''connect failed''"
| "RejectionReason_String UnknownChannelType = ''unknown channel type''"
| "RejectionReason_String ResourceShortage = ''resource shortage''"

record OpenChannelError =
  Reason :: RejectionReason
  Message :: string

text \<open>
  \<^verbatim>\<open>
  func (e *OpenChannelError) Error() string {
      return fmt.Sprintf("ssh: rejected: %s (%s)", e.Reason, e.Message)
  }
  \<close>
\<close>

definition Error :: "OpenChannelError \<Rightarrow> string" where
  "Error e = ''ssh: rejected: '' @ RejectionReason_String (Reason e) @ '' ('' @ Message e @ '')''"

text \<open>The rendering as the specification words it: \<open>rejected: <reason> (<message>)\<close>.\<close>

definition spec_rendering :: "OpenChannelError \<Rightarrow> string" where
  "spec_rendering e = ''rejected: '' @ RejectionReason_String (Reason e) @ '' ('' @ Message e @ '')''"

section \<open>Discarding requests\<close>

text \<open>
  Modelled from the spec: the declaration of \<^verbatim>\<open>Request\<close> is not in connection.go. The
  spec gives it a name, an opaque payload and the flag \<^verbatim>\<open>WantReply\<close> that the loop
  reads. Its method \<^verbatim>\<open>Reply(ok, payload)\<close> is missing too: a call of it is recorded
  as an event.
\<close>

record Request =
  name :: string
  WantReply :: bool
  payload :: "byte list"

text \<open>
  What a consumer sees of a Go channel of \<open>'a\<close>: the next receive yields an element and
  leaves the rest of the channel, or reports that the channel is closed and drained, or
  blocks for ever (no sender and no close, as on a nil channel). A channel may deliver without
  end. The elements of \<^verbatim>\<open><-chan *Request\<close> are pointers: \<open>None\<close> is nil.
\<close>

codatatype 'a chan = ChClosed | ChBlocked | ChItem 'a "'a chan"

primrec deliver :: "'a list \<Rightarrow> 'a chan \<Rightarrow> 'a chan" where
  "deliver [] c = c"
| "deliver (x # xs) c = ChItem x (deliver xs c)"

primcorec forever :: "'a \<Rightarrow> 'a chan" where
  "forever x = ChItem x (forever x)"

datatype event = Recv "Request option" | Reply Request bool slice

datatype status = Running | Blocked | Returned | Panicked panic

record loop_state =
  status :: status
  inp :: "Request option chan"
  trace :: "event list"

text \<open>
  \<^verbatim>\<open>
  func DiscardRequests(in <-chan *Request) {
      for req := range in {
          if req.WantReply {
              req.Reply(false, nil)
          }
      }
  }
  \<close>
  One step is one receive of the \<^verbatim>\<open>range\<close> clause followed by the loop body. The loop
  returns when the receive reports the channel closed, stays blocked when the receive
  blocks, and panics when it dereferences a nil request.
\<close>

definition DiscardRequests_step :: "loop_state \<Rightarrow> loop_state" where
  "DiscardRequests_step s =
     (if status s \<noteq> Running then s
      else case inp s of
        ChClosed \<Rightarrow> s\<lparr>status := Returned\<rparr>
      | ChBlocked \<Rightarrow> s\<lparr>status := Blocked\<rparr>
      | ChItem req c \<Rightarrow>
          (case req of
             None \<Rightarrow> s\<lparr>status := Panicked NilDereference, inp := c,
                        trace := trace s @ [Recv None]\<rparr>
           | Some r \<Rightarrow>
               s\<lparr>inp := c,
                 trace := trace s @ Recv (Some r) #
                   (if WantReply r then [Reply r False nil_slice] else [])\<rparr>))"

primrec steps :: "nat \<Rightarrow> loop_state \<Rightarrow> loop_state" where
  "steps 0 s = s"
| "steps (Suc n) s = steps n (DiscardRequests_step s)"

text \<open>The state of \<^verbatim>\<open>DiscardRequests(in)\<close> after at most \<open>n\<close> iterations.\<close>

definition DiscardRequests :: "nat \<Rightarrow> Request option chan \<Rightarrow> loop_state" where
  "DiscardRequests n c = steps n \<lparr>status = Running, inp = c, trace = []\<rparr>"

text \<open>
  The events the specification asks for: each consumed request is followed, before the next
  one is consumed, by one reply "not accepted" with no payload when it wants a reply, and
  by nothing when it does not.
\<close>

definition answer :: "Request \<Rightarrow> event list" where
  "answer r = Recv (Some r) # (if WantReply r then [Reply r False nil_slice] else [])"

definition spec_trace :: "Request list \<Rightarrow> event list" where
  "spec_trace rs = concat (map answer rs)"

fun consumed :: "event list \<Rightarrow> nat" where
  "consumed [] = 0"
| "consumed (Recv r # es) = Suc (consumed es)"
| "consumed (Reply r ok p # es) = consumed es"

section \<open>Contracts stated by the specification\<close>

text \<open>
  The copy contract of an accessor \<open>acc\<close> for the stored field \<open>field\<close>: the call returns
  a slice with the content of the stored field and with no capacity beyond its length; when
  the result has an element, it lies in an array that was not allocated before the call, so
  no slice that existed before shares it (an empty result has no element and no storage of
  its own); and whatever the array behind the result holds afterwards, in particular after
  an assignment \<^verbatim>\<open>b[i] = v\<close> to the returned slice, the stored field still reads as
  before and the next call of the accessor returns the original content again.
\<close>

definition returns_fresh_copy ::
  "('s state \<Rightarrow> panic + slice \<times> 's state) \<Rightarrow> ('s sshConn \<Rightarrow> slice) \<Rightarrow> 's state \<Rightarrow> bool" where
  "returns_fresh_copy acc field w =
     (\<exists>b w'. acc w = Inr (b, w') \<and> conn w' = conn w \<and>
        slice_bytes (mem w') b = slice_bytes (mem w) (field (conn w)) \<and>
        cap b = len b \<and>
        (0 < len b \<longrightarrow>
           array b = Some (Arr (length (mem w))) \<and>
           (\<forall>s. valid_slice (mem w) s \<longrightarrow> array s \<noteq> array b)) \<and>
        (\<forall>arr. slice_bytes (write_array (array b) arr (mem w')) (field (conn w))
                 = slice_bytes (mem w) (field (conn w)) \<and>
               (\<exists>b2 w2. acc (w'\<lparr>mem := write_array (array b) arr (mem w')\<rparr>) = Inr (b2, w2) \<and>
                  slice_bytes (mem w2) b2 = slice_bytes (mem w) (field (conn w)))) \<and>
        (\<forall>i v h''. store b i v (mem w') = Inr h'' \<longrightarrow>
               slice_bytes h'' (field (conn w)) = slice_bytes (mem w) (field (conn w)) \<and>
               (\<exists>b2 w2. acc (w'\<lparr>mem := h''\<rparr>) = Inr (b2, w2) \<and>
                  slice_bytes (mem w2) b2 = slice_bytes (mem w) (field (conn w)))))"

text \<open>
  A session whose session hash fills one array, whose client version is a window into the
  same array and whose server version is nil.
\<close>

definition example_state :: "nat state" where
  "example_state =
     \<lparr>mem = [[1, 2, 3, 4], [7]],
      conn = \<lparr>stream = 0, user = ''alice'',
              sessionID = \<lparr>array = Some (Arr 0), off = 0, len = 4, cap = 4\<rparr>,
              clientVersion = \<lparr>array = Some (Arr 0), off = 1, len = 2, cap = 3\<rparr>,
              serverVersion = nil_slice\<rparr>\<rparr>"

text \<open>A session that stores nil for all three byte fields.\<close>

definition empty_state :: "nat state" where
  "empty_state =
     \<lparr>mem = [],
      conn = \<lparr>stream = 0, user = ''bob'', sessionID = nil_slice,
              clientVersion = nil_slice, serverVersion = nil_slice\<rparr>\<rparr>"

text \<open>Two requests: one that wants a reply and one that does not.\<close>

definition exec_req :: Request where
  "exec_req = \<lparr>name = ''exec'', WantReply = True, payload = []\<rparr>"

definition env_req :: Request where
  "env_req = \<lparr>name = ''env'', WantReply = False, payload = [1]\<rparr>"

text \<open>
  A call of one of the six metadata accessors, keeping only the state it leaves behind, and
  a sequence of such calls.
\<close>

datatype accessor =
  GetUser | GetSessionID | GetClientVersion | GetServerVersion
  | GetRemoteMultiaddr | GetLocalMultiaddr

fun call :: "('s, 'c, 'a, 'e) stream_ops \<Rightarrow> accessor \<Rightarrow> 's state \<Rightarrow> panic + 's state" where
  "call ops GetUser w = Inr (snd (User w))"
| "call ops GetSessionID w = (case SessionID w of Inl p \<Rightarrow> Inl p | Inr (b, w') \<Rightarrow> Inr w')"
| "call ops GetClientVersion w = (case ClientVersion w of Inl p \<Rightarrow> Inl p | Inr (b, w') \<Rightarrow> Inr w')"
| "call ops GetServerVersion w = (case ServerVersion w of Inl p \<Rightarrow> Inl p | Inr (b, w') \<Rightarrow> Inr w')"
| "call ops GetRemoteMultiaddr w = Inr (snd (RemoteMultiaddr ops w))"
| "call ops GetLocalMultiaddr w = Inr (snd (LocalMultiaddr ops w))"

fun calls :: "('s, 'c, 'a, 'e) stream_ops \<Rightarrow> accessor list \<Rightarrow> 's state \<Rightarrow> panic + 's state" where
  "calls ops [] w = Inr w"
| "calls ops (a # as) w = (case call ops a w of Inl p \<Rightarrow> Inl p | Inr w' \<Rightarrow> calls ops as w')"

text \<open>
  Three streams. The first reports addresses that depend on its current state. The second
  writes a close frame at every \<^verbatim>\<open>Close()\<close>; its state is the number of frames written.
  The third latches: its state is whether it is closed, and closing it again reports an
  error and changes nothing.
\<close>

definition moving_ops :: "(nat, nat, nat \<times> nat, unit) stream_ops" where
  "moving_ops =
     \<lparr>stream_Conn = (\<lambda>s. s), conn_RemoteMultiaddr = (\<lambda>c. (c, 22)),
      conn_LocalMultiaddr = (\<lambda>c. (c, 4001)), stream_Close = (\<lambda>s. ((), s))\<rparr>"

definition counting_ops :: "(nat, unit, unit, string option) stream_ops" where
  "counting_ops =
     \<lparr>stream_Conn = (\<lambda>s. ()), conn_RemoteMultiaddr = (\<lambda>c. ()),
      conn_LocalMultiaddr = (\<lambda>c. ()), stream_Close = (\<lambda>s. (None, Suc s))\<rparr>"

definition latch_ops :: "(bool, unit, unit, string option) stream_ops" where
  "latch_ops =
     \<lparr>stream_Conn = (\<lambda>s. ()), conn_RemoteMultiaddr = (\<lambda>c. ()),
      conn_LocalMultiaddr = (\<lambda>c. ()),
      stream_Close = (\<lambda>closed. (if closed then Some ''stream closed'' else None, True))\<rparr>"

definition example_connection :: "'s \<Rightarrow> (unit, 's, unit) connection" where
  "example_connection s =
     \<lparr>transport = (),
      sshConn = \<lparr>stream = s, user = ''alice'', sessionID = nil_slice,
                 clientVersion = nil_slice, serverVersion = nil_slice\<rparr>,
      mux = ()\<rparr>"

section \<open>Properties\<close>

subsection \<open>Slices in the heap\<close>

lemma slice_bytes_append:
  "valid_slice h s \<Longrightarrow> slice_bytes (h @ hs) s = slice_bytes h s"
  by (auto simp: valid_slice_def slice_bytes_def nth_append split: option.splits pointer.splits)

lemma length_slice_bytes:
  "valid_slice h s \<Longrightarrow> length (slice_bytes h s) = len s"
  by (auto simp: valid_slice_def slice_bytes_def split: option.splits pointer.splits)

lemma slice_bytes_update_other:
  "array s \<noteq> Some (Arr a) \<Longrightarrow> slice_bytes (h[a := arr]) s = slice_bytes h s"
  by (auto simp: slice_bytes_def split: option.splits pointer.splits)

lemma valid_slice_fresh:
  "valid_slice h s \<Longrightarrow> array s \<noteq> Some (Arr (length h))"
  by (auto simp: valid_slice_def split: option.splits pointer.splits)

lemma valid_slice_append:
  "valid_slice h s \<Longrightarrow> valid_slice (h @ hs) s"
  by (auto simp: valid_slice_def nth_append split: option.splits pointer.splits)

lemma valid_slice_update_other:
  "valid_slice h s \<Longrightarrow> array s \<noteq> Some (Arr a) \<Longrightarrow> valid_slice (h[a := arr]) s"
  by (auto simp: valid_slice_def split: option.splits pointer.splits)

lemma slice_bytes_whole:
  "slice_bytes (h @ [bs]) \<lparr>array = Some (Arr (length h)), off = 0, len = length bs, cap = n\<rparr> = bs"
  by (simp add: slice_bytes_def)

lemma slice_bytes_empty:
  "valid_slice h s \<Longrightarrow> len s = 0 \<Longrightarrow> slice_bytes h s = []"
  using length_slice_bytes [of h s] by simp

lemma slice_bytes_zerobase:
  "slice_bytes h \<lparr>array = Some Zerobase, off = k, len = n, cap = m\<rparr> = []"
  by (simp add: slice_bytes_def)

lemma write_array_zerobase: "write_array (Some Zerobase) arr h = h"
  by (simp add: write_array_def)

lemma write_array_arr: "write_array (Some (Arr a)) arr h = h[a := arr]"
  by (simp add: write_array_def)

text \<open>Every element write through a slice changes the slice's own array and no other.\<close>

lemma store_array_update:
  "store s i v h = Inr h' \<Longrightarrow> \<exists>arr. h' = write_array (array s) arr h"
  by (auto simp: store_def write_array_def split: if_splits option.splits pointer.splits)

subsection \<open>The copy helper\<close>

lemma dup_result:
  "dup src h =
     (if len src = 0 then Inr (\<lparr>array = Some Zerobase, off = 0, len = 0, cap = 0\<rparr>, h)
      else Inr (\<lparr>array = Some (Arr (length h)), off = 0, len = len src, cap = len src\<rparr>,
                h @ [take (len src) (slice_bytes (h @ [replicate (len src) 0]) src)]))"
  by (simp add: dup_def make_bytes_def copy_bytes_def Let_def)

lemma dup_valid_result:
  "valid_slice h src \<Longrightarrow>
   dup src h =
     (if len src = 0 then Inr (\<lparr>array = Some Zerobase, off = 0, len = 0, cap = 0\<rparr>, h)
      else Inr (\<lparr>array = Some (Arr (length h)), off = 0, len = len src, cap = len src\<rparr>,
                h @ [slice_bytes h src]))"
  by (simp add: dup_result slice_bytes_append length_slice_bytes)

lemma dup_fresh_copy:
  assumes v: "valid_slice h src"
  shows "\<exists>dst h'. dup src h = Inr (dst, h') \<and>
           cap dst = len dst \<and>
           (0 < len dst \<longrightarrow> array dst = Some (Arr (length h))) \<and>
           slice_bytes h' dst = slice_bytes h src \<and>
           (\<forall>arr. slice_bytes (write_array (array dst) arr h') src = slice_bytes h src \<and>
                  valid_slice (write_array (array dst) arr h') src)"
proof (cases "len src = 0")
  case True
  with v show ?thesis
    by (simp add: dup_valid_result write_array_zerobase slice_bytes_empty
        slice_bytes_zerobase)
next
  case False
  with v show ?thesis
    by (simp add: dup_valid_result write_array_arr slice_bytes_whole
        length_slice_bytes [symmetric] slice_bytes_update_other valid_slice_fresh
        slice_bytes_append valid_slice_append valid_slice_update_other
        del: length_slice_bytes)
qed

lemma dup_returns_fresh_copy:
  assumes acc: "\<And>w. acc w = (case dup (field (conn w)) (mem w) of
                   Inl p \<Rightarrow> Inl p | Inr (b, h) \<Rightarrow> Inr (b, w\<lparr>mem := h\<rparr>))"
    and v: "valid_slice (mem w) (field (conn w))"
  shows "returns_fresh_copy acc field w"
proof -
  let ?src = "field (conn w)" and ?h = "mem w"
  from dup_fresh_copy [OF v] obtain dst h' where
    d: "dup ?src ?h = Inr (dst, h')" and c: "cap dst = len dst"
    and a: "0 < len dst \<longrightarrow> array dst = Some (Arr (length ?h))"
    and eq: "slice_bytes h' dst = slice_bytes ?h ?src"
    and mut: "\<And>arr. slice_bytes (write_array (array dst) arr h') ?src = slice_bytes ?h ?src"
             "\<And>arr. valid_slice (write_array (array dst) arr h') ?src"
    by (elim exE conjE) simp
  have r: "acc w = Inr (dst, w\<lparr>mem := h'\<rparr>)"
    by (simp add: acc d)
  have again: "\<exists>b2 w2. acc (w\<lparr>mem := write_array (array dst) arr h'\<rparr>) = Inr (b2, w2) \<and>
                 slice_bytes (mem w2) b2 = slice_bytes ?h ?src" for arr
  proof -
    from dup_fresh_copy [OF mut(2) [of arr]] obtain b2 h2 where
      "dup ?src (write_array (array dst) arr h') = Inr (b2, h2)"
      "slice_bytes h2 b2 = slice_bytes (write_array (array dst) arr h') ?src"
      by blast
    then show ?thesis
      by (simp add: acc mut(1))
  qed
  have written: "slice_bytes h'' ?src = slice_bytes ?h ?src \<and>
                 (\<exists>b2 w2. acc (w\<lparr>mem := h''\<rparr>) = Inr (b2, w2) \<and>
                    slice_bytes (mem w2) b2 = slice_bytes ?h ?src)"
    if "store dst i v h' = Inr h''" for i v h''
  proof -
    from store_array_update [OF that] obtain arr where "h'' = write_array (array dst) arr h'"
      by auto
    then show ?thesis
      using mut(1) [of arr] again [of arr] by simp
  qed
  have fresh: "0 < len dst \<longrightarrow> (\<forall>s. valid_slice ?h s \<longrightarrow> array s \<noteq> array dst)"
    using a valid_slice_fresh [of ?h] by auto
  show ?thesis
    unfolding returns_fresh_copy_def
    apply (rule exI [of _ dst], rule exI [of _ "w\<lparr>mem := h'\<rparr>"])
    using r eq c a fresh mut(1) again written
    by simp
qed

subsection \<open>Defensive copies\<close>

text \<open>
  C1: in every established session, \<^verbatim>\<open>SessionID()\<close>, \<^verbatim>\<open>ClientVersion()\<close> and
  \<^verbatim>\<open>ServerVersion()\<close> each return bytes equal to the stored field; a result that has an
  element lies in an array that did not exist before the call and that no earlier slice
  shares, and an empty result has no element and no capacity, hence no storage that could
  be shared; whatever the caller then writes into the returned buffer, the stored field is
  unchanged and the next call of the same accessor returns the original bytes.
\<close>

theorem accessors_return_fresh_copies:
  assumes "valid_state w"
  shows "returns_fresh_copy SessionID sessionID w \<and>
         returns_fresh_copy ClientVersion clientVersion w \<and>
         returns_fresh_copy ServerVersion serverVersion w"
  using assms
  by (simp add: valid_state_def dup_returns_fresh_copy SessionID_def ClientVersion_def
      ServerVersion_def)

theorem accessors_return_fresh_copies_witness:
  "valid_state example_state \<and>
   returns_fresh_copy SessionID sessionID example_state \<and>
   returns_fresh_copy ClientVersion clientVersion example_state \<and>
   returns_fresh_copy ServerVersion serverVersion example_state \<and>
   (\<exists>b w' h'' b2 w2.
      SessionID example_state = Inr (b, w') \<and> slice_bytes (mem w') b = [1, 2, 3, 4] \<and>
      store b 0 255 (mem w') = Inr h'' \<and> slice_bytes h'' b = [255, 2, 3, 4] \<and>
      slice_bytes h'' (sessionID (conn example_state)) = [1, 2, 3, 4] \<and>
      SessionID (w'\<lparr>mem := h''\<rparr>) = Inr (b2, w2) \<and> slice_bytes (mem w2) b2 = [1, 2, 3, 4]) \<and>
   ServerVersion example_state =
     Inr (\<lparr>array = Some Zerobase, off = 0, len = 0, cap = 0\<rparr>, example_state)"
proof -
  have v: "valid_state example_state"
    by (simp add: valid_state_def valid_slice_def example_state_def nil_slice_def)
  have empty: "ServerVersion example_state =
     Inr (\<lparr>array = Some Zerobase, off = 0, len = 0, cap = 0\<rparr>, example_state)"
    by (simp add: ServerVersion_def dup_result example_state_def nil_slice_def)
  have run: "\<exists>b w' h'' b2 w2.
      SessionID example_state = Inr (b, w') \<and> slice_bytes (mem w') b = [1, 2, 3, 4] \<and>
      store b 0 255 (mem w') = Inr h'' \<and> slice_bytes h'' b = [255, 2, 3, 4] \<and>
      slice_bytes h'' (sessionID (conn example_state)) = [1, 2, 3, 4] \<and>
      SessionID (w'\<lparr>mem := h''\<rparr>) = Inr (b2, w2) \<and> slice_bytes (mem w2) b2 = [1, 2, 3, 4]"
    by (simp add: SessionID_def dup_result example_state_def slice_bytes_def store_def
        nth_append)
  show ?thesis
    using v run empty accessors_return_fresh_copies [OF v] by simp
qed

subsection \<open>Totality of the copy helper\<close>

lemma dup_nil_accessor:
  assumes acc: "\<And>w. acc w = (case dup (field (conn w)) (mem w) of
                   Inl p \<Rightarrow> Inl p | Inr (b, h) \<Rightarrow> Inr (b, w\<lparr>mem := h\<rparr>))"
    and n: "field (conn w) = nil_slice"
  shows "\<exists>b w'. acc w = Inr (b, w') \<and> len b = 0 \<and> slice_bytes (mem w') b = []"
  by (simp add: acc n dup_result nil_slice_def slice_bytes_def)

text \<open>
  C10: \<^verbatim>\<open>dup\<close> never panics: for every slice, the nil slice included, it returns a
  slice of the same length with the same elements; so \<^verbatim>\<open>SessionID()\<close>,
  \<^verbatim>\<open>ClientVersion()\<close> and \<^verbatim>\<open>ServerVersion()\<close> return, with a zero-length result,
  also when the stored field is nil.
\<close>

theorem dup_total:
  "(\<exists>dst h'. dup src h = Inr (dst, h') \<and> len dst = len src \<and>
      (valid_slice h src \<longrightarrow> slice_bytes h' dst = slice_bytes h src)) \<and>
   (\<exists>dst h'. dup nil_slice h = Inr (dst, h') \<and> len dst = 0 \<and> slice_bytes h' dst = []) \<and>
   (sessionID (conn w) = nil_slice \<longrightarrow>
      (\<exists>b w'. SessionID w = Inr (b, w') \<and> len b = 0 \<and> slice_bytes (mem w') b = [])) \<and>
   (clientVersion (conn w) = nil_slice \<longrightarrow>
      (\<exists>b w'. ClientVersion w = Inr (b, w') \<and> len b = 0 \<and> slice_bytes (mem w') b = [])) \<and>
   (serverVersion (conn w) = nil_slice \<longrightarrow>
      (\<exists>b w'. ServerVersion w = Inr (b, w') \<and> len b = 0 \<and> slice_bytes (mem w') b = []))"
proof -
  have general: "\<exists>dst h'. dup src h = Inr (dst, h') \<and> len dst = len src \<and>
      (valid_slice h src \<longrightarrow> slice_bytes h' dst = slice_bytes h src)"
  proof (cases "valid_slice h src")
    case True
    show ?thesis
    proof (cases "len src = 0")
      case True
      with \<open>valid_slice h src\<close> show ?thesis
        by (simp add: dup_valid_result slice_bytes_empty slice_bytes_zerobase)
    next
      case False
      with \<open>valid_slice h src\<close> show ?thesis
        by (simp add: dup_valid_result slice_bytes_whole length_slice_bytes [symmetric]
            del: length_slice_bytes)
    qed
  next
    case False
    then show ?thesis by (simp add: dup_result)
  qed
  have nil: "\<exists>dst h'. dup nil_slice h = Inr (dst, h') \<and> len dst = 0 \<and> slice_bytes h' dst = []"
    by (simp add: dup_result nil_slice_def slice_bytes_def)
  show ?thesis
    using general nil
      dup_nil_accessor [of SessionID sessionID w]
      dup_nil_accessor [of ClientVersion clientVersion w]
      dup_nil_accessor [of ServerVersion serverVersion w]
    by (simp add: SessionID_def ClientVersion_def ServerVersion_def)
qed

theorem dup_total_witness:
  "valid_slice (mem example_state) (clientVersion (conn example_state)) \<and>
   sessionID (conn empty_state) = nil_slice \<and>
   clientVersion (conn empty_state) = nil_slice \<and>
   serverVersion (conn empty_state) = nil_slice \<and>
   (\<exists>dst h'. dup (clientVersion (conn example_state)) (mem example_state) = Inr (dst, h') \<and>
      len dst = 2 \<and> slice_bytes h' dst = [2, 3]) \<and>
   (\<exists>b w'. SessionID empty_state = Inr (b, w') \<and> len b = 0 \<and> slice_bytes (mem w') b = []) \<and>
   (\<exists>b w'. ClientVersion empty_state = Inr (b, w') \<and> len b = 0 \<and> slice_bytes (mem w') b = []) \<and>
   (\<exists>b w'. ServerVersion empty_state = Inr (b, w') \<and> len b = 0 \<and> slice_bytes (mem w') b = [])"
proof -
  have v: "valid_slice (mem example_state) (clientVersion (conn example_state))"
    by (simp add: valid_slice_def example_state_def)
  have b: "slice_bytes (mem example_state) (clientVersion (conn example_state)) = [2, 3]"
    by (simp add: slice_bytes_def example_state_def)
  have l: "len (clientVersion (conn example_state)) = 2"
    by (simp add: example_state_def)
  have n: "sessionID (conn empty_state) = nil_slice"
    "clientVersion (conn empty_state) = nil_slice"
    "serverVersion (conn empty_state) = nil_slice"
    by (simp_all add: empty_state_def)
  show ?thesis
    using dup_total [of "clientVersion (conn example_state)" "mem example_state" empty_state]
    by (simp only: v b l n simp_thms)
qed

subsection \<open>The request-discard loop\<close>

lemma steps_halted: "status s \<noteq> Running \<Longrightarrow> steps n s = s"
  by (induction n) (simp_all add: DiscardRequests_step_def)

lemma steps_add: "steps (m + n) s = steps n (steps m s)"
  by (induction m arbitrary: s) simp_all

lemma step_request:
  "DiscardRequests_step \<lparr>status = Running, inp = ChItem (Some r) c, trace = tr\<rparr> =
     \<lparr>status = Running, inp = c, trace = tr @ answer r\<rparr>"
  by (simp add: DiscardRequests_step_def answer_def)

lemma step_closed:
  "DiscardRequests_step \<lparr>status = Running, inp = ChClosed, trace = tr\<rparr> =
     \<lparr>status = Returned, inp = ChClosed, trace = tr\<rparr>"
  by (simp add: DiscardRequests_step_def)

lemma steps_deliver:
  "steps (length rs) \<lparr>status = Running, inp = deliver (map Some rs) c, trace = tr\<rparr> =
     \<lparr>status = Running, inp = c, trace = tr @ spec_trace rs\<rparr>"
  by (induction rs arbitrary: tr) (simp_all add: step_request spec_trace_def)

lemma deliver_append: "deliver (xs @ ys) c = deliver xs (deliver ys c)"
  by (induction xs) simp_all

lemma steps_prefix_running:
  assumes "n \<le> length rs"
  shows "status (steps n \<lparr>status = Running, inp = deliver (map Some rs) c, trace = tr\<rparr>) = Running"
proof -
  have "deliver (map Some rs) c = deliver (map Some (take n rs)) (deliver (map Some (drop n rs)) c)"
    by (simp add: deliver_append [symmetric] map_append [symmetric] del: map_append)
  moreover have "length (take n rs) = n"
    using assms by simp
  ultimately show ?thesis
    using steps_deliver [of "take n rs" "deliver (map Some (drop n rs)) c" tr] by simp
qed

lemma steps_closed_returns:
  "steps (Suc (length rs) + k) \<lparr>status = Running, inp = deliver (map Some rs) ChClosed, trace = tr\<rparr> =
     \<lparr>status = Returned, inp = ChClosed, trace = tr @ spec_trace rs\<rparr>"
proof -
  have "steps (length rs + (1 + k)) \<lparr>status = Running, inp = deliver (map Some rs) ChClosed, trace = tr\<rparr>
        = steps (1 + k) \<lparr>status = Running, inp = ChClosed, trace = tr @ spec_trace rs\<rparr>"
    by (simp only: steps_add steps_deliver)
  also have "\<dots> = steps k \<lparr>status = Returned, inp = ChClosed, trace = tr @ spec_trace rs\<rparr>"
    by (simp add: step_closed)
  also have "\<dots> = \<lparr>status = Returned, inp = ChClosed, trace = tr @ spec_trace rs\<rparr>"
    by (simp add: steps_halted)
  finally show ?thesis by simp
qed

lemma returned_only_if_closed:
  "status (steps n \<lparr>status = Running, inp = c, trace = tr\<rparr>) = Returned \<Longrightarrow>
   \<exists>rs. c = deliver (map Some rs) ChClosed"
proof (induction n arbitrary: c tr)
  case 0
  then show ?case by simp
next
  case (Suc n)
  show ?case
  proof (cases c)
    case ChClosed
    then have "c = deliver (map Some []) ChClosed" by simp
    then show ?thesis by blast
  next
    case ChBlocked
    with Suc.prems show ?thesis
      by (simp add: DiscardRequests_step_def steps_halted)
  next
    case (ChItem req c')
    show ?thesis
    proof (cases req)
      case None
      with ChItem Suc.prems show ?thesis
        by (simp add: DiscardRequests_step_def steps_halted)
    next
      case (Some r)
      with ChItem Suc.prems have
        "status (steps n \<lparr>status = Running, inp = c', trace = tr @ answer r\<rparr>) = Returned"
        by (simp add: step_request)
      from Suc.IH [OF this] obtain rs where "c' = deliver (map Some rs) ChClosed" ..
      with ChItem Some have "c = deliver (map Some (r # rs)) ChClosed" by simp
      then show ?thesis by blast
    qed
  qed
qed

lemma consumed_append: "consumed (es @ fs) = consumed es + consumed fs"
  by (induction es rule: consumed.induct) simp_all

lemma consumed_spec_trace: "consumed (spec_trace rs) = length rs"
  by (induction rs) (simp_all add: spec_trace_def answer_def consumed_append)

lemma step_forever:
  "DiscardRequests_step \<lparr>status = Running, inp = forever (Some r), trace = tr\<rparr> =
     \<lparr>status = Running, inp = forever (Some r), trace = tr @ answer r\<rparr>"
  by (subst forever.code) (simp add: step_request)

lemma steps_forever:
  "steps n \<lparr>status = Running, inp = forever (Some r), trace = tr\<rparr> =
     \<lparr>status = Running, inp = forever (Some r), trace = tr @ spec_trace (replicate n r)\<rparr>"
  by (induction n arbitrary: tr) (simp_all add: step_forever spec_trace_def)

text \<open>
  C2: on every delivery stream, after the loop has consumed the requests \<open>rs\<close> (any finite
  prefix of the stream, whatever follows it), the events are, request by request in order,
  the receive of the request followed by exactly one \<^verbatim>\<open>Reply(false, nil)\<close> when it
  wants a reply and by nothing when it does not; the reply precedes the next receive, and
  the nil payload is empty.
\<close>

theorem DiscardRequests_replies:
  "DiscardRequests (length rs) (deliver (map Some rs) c) =
     \<lparr>status = Running, inp = c,
      trace = concat (map (\<lambda>r. Recv (Some r) #
                (if WantReply r then [Reply r False nil_slice] else [])) rs)\<rparr> \<and>
   len nil_slice = 0 \<and> slice_bytes h nil_slice = []"
proof -
  have "answer = (\<lambda>r. Recv (Some r) # (if WantReply r then [Reply r False nil_slice] else []))"
    by (rule ext) (simp add: answer_def)
  then show ?thesis
    using steps_deliver [of rs c "[]"]
    by (simp add: DiscardRequests_def spec_trace_def nil_slice_def slice_bytes_def)
qed

theorem DiscardRequests_replies_witness:
  "DiscardRequests 2 (ChItem (Some exec_req) (ChItem (Some env_req) ChClosed)) =
     \<lparr>status = Running, inp = ChClosed,
      trace = [Recv (Some exec_req), Reply exec_req False nil_slice, Recv (Some env_req)]\<rparr>"
  using DiscardRequests_replies [of "[exec_req, env_req]" ChClosed "[]"]
  by (simp add: exec_req_def env_req_def numeral_2_eq_2)

text \<open>
  C4: the loop returns exactly when its stream is closed: it returns for some number of
  iterations if and only if the stream is a finite run of requests followed by the close; it
  then has consumed exactly those requests and stays in that final state, consuming nothing
  more; it is still running after any number of iterations that the stream has requests for;
  and on a stream that delivers for ever it runs for ever, consuming one request per
  iteration.
\<close>

theorem DiscardRequests_terminates_on_close:
  "((\<exists>n. status (DiscardRequests n c) = Returned) \<longleftrightarrow> (\<exists>rs. c = deliver (map Some rs) ChClosed)) \<and>
   (\<forall>k. DiscardRequests (Suc (length rs) + k) (deliver (map Some rs) ChClosed) =
      \<lparr>status = Returned, inp = ChClosed, trace = spec_trace rs\<rparr>) \<and>
   consumed (spec_trace rs) = length rs \<and>
   (\<forall>n\<le>length rs. status (DiscardRequests n (deliver (map Some rs) c')) = Running) \<and>
   (\<forall>n. status (DiscardRequests n (forever (Some r))) = Running \<and>
        consumed (trace (DiscardRequests n (forever (Some r)))) = n)"
proof -
  have ret: "DiscardRequests (Suc (length rs) + k) (deliver (map Some rs) ChClosed) =
      \<lparr>status = Returned, inp = ChClosed, trace = spec_trace rs\<rparr>" for rs k
    using steps_closed_returns [of rs k "[]"] by (simp add: DiscardRequests_def)
  have "(\<exists>n. status (DiscardRequests n c) = Returned) \<longleftrightarrow> (\<exists>rs. c = deliver (map Some rs) ChClosed)"
  proof
    assume "\<exists>n. status (DiscardRequests n c) = Returned"
    then show "\<exists>rs. c = deliver (map Some rs) ChClosed"
      unfolding DiscardRequests_def using returned_only_if_closed by blast
  next
    assume "\<exists>rs. c = deliver (map Some rs) ChClosed"
    then obtain rs where "c = deliver (map Some rs) ChClosed" ..
    then have "status (DiscardRequests (Suc (length rs) + 0) c) = Returned"
      by (simp only: ret) simp
    then show "\<exists>n. status (DiscardRequests n c) = Returned" ..
  qed
  moreover have "\<forall>n\<le>length rs. status (DiscardRequests n (deliver (map Some rs) c')) = Running"
    by (simp add: DiscardRequests_def steps_prefix_running)
  moreover have "\<forall>n. status (DiscardRequests n (forever (Some r))) = Running \<and>
        consumed (trace (DiscardRequests n (forever (Some r)))) = n"
    by (simp add: DiscardRequests_def steps_forever consumed_spec_trace)
  ultimately show ?thesis
    using ret consumed_spec_trace by blast
qed

theorem DiscardRequests_terminates_on_close_witness:
  "(\<exists>n. status (DiscardRequests n (deliver (map Some [exec_req, env_req]) ChClosed)) = Returned) \<and>
   DiscardRequests 3 (deliver (map Some [exec_req, env_req]) ChClosed) =
     \<lparr>status = Returned, inp = ChClosed,
      trace = [Recv (Some exec_req), Reply exec_req False nil_slice, Recv (Some env_req)]\<rparr> \<and>
   (2::nat) \<le> length [exec_req, env_req] \<and>
   status (DiscardRequests 2 (deliver (map Some [exec_req, env_req]) ChBlocked)) = Running \<and>
   status (DiscardRequests 3 (deliver (map Some [exec_req, env_req]) ChBlocked)) = Blocked"
proof -
  note t = DiscardRequests_terminates_on_close
    [of "deliver (map Some [exec_req, env_req]) ChClosed" "[exec_req, env_req]" ChBlocked exec_req]
  from t have "\<exists>n. status (DiscardRequests n (deliver (map Some [exec_req, env_req]) ChClosed)) = Returned"
    by blast
  moreover from t have "DiscardRequests (Suc (length [exec_req, env_req]) + 0)
      (deliver (map Some [exec_req, env_req]) ChClosed) =
      \<lparr>status = Returned, inp = ChClosed, trace = spec_trace [exec_req, env_req]\<rparr>"
    by blast
  then have "DiscardRequests 3 (deliver (map Some [exec_req, env_req]) ChClosed) =
     \<lparr>status = Returned, inp = ChClosed,
      trace = [Recv (Some exec_req), Reply exec_req False nil_slice, Recv (Some env_req)]\<rparr>"
    by (simp add: spec_trace_def answer_def exec_req_def env_req_def eval_nat_numeral)
  moreover from t have "status (DiscardRequests 2 (deliver (map Some [exec_req, env_req]) ChBlocked)) = Running"
    by simp
  moreover have "status (DiscardRequests 3 (deliver (map Some [exec_req, env_req]) ChBlocked)) = Blocked"
    by (simp add: DiscardRequests_def DiscardRequests_step_def eval_nat_numeral)
  ultimately show ?thesis by simp
qed

subsection \<open>Rendering of a rejection\<close>

text \<open>
  The rendering the specification gives for reason "administratively prohibited" and message
  "no" is not what \<^verbatim>\<open>Error()\<close> returns: the format string starts with \<^verbatim>\<open>ssh: \<close>.
\<close>

theorem Error_rendering_counterexample:
  "Error \<lparr>Reason = Prohibited, Message = ''no''\<rparr> \<noteq> ''rejected: administratively prohibited (no)''"
  by (simp add: Error_def)

text \<open>
  C3 (amended): for every reason and message the rendering is exactly
  \<open>ssh: rejected: <reason> (<message>)\<close>, the specification's format behind the prefix
  \<^verbatim>\<open>ssh: \<close>; reason "administratively prohibited" with message "no" renders
  \<open>ssh: rejected: administratively prohibited (no)\<close>.
\<close>

theorem Error_rendering:
  "Error e = ''ssh: '' @ spec_rendering e \<and>
   Error \<lparr>Reason = Prohibited, Message = ''no''\<rparr> = ''ssh: rejected: administratively prohibited (no)''"
  by (simp add: Error_def spec_rendering_def)

subsection \<open>Closing\<close>

lemma connection_Close_result:
  "connection_Close ops c =
     (fst (stream_Close ops (stream (sshConn c))),
      c\<lparr>sshConn := (sshConn c)\<lparr>stream := snd (stream_Close ops (stream (sshConn c)))\<rparr>\<rparr>)"
  by (simp add: connection_Close_def split: prod.splits)

text \<open>
  C7: the outer \<^verbatim>\<open>Close()\<close> does to a connection what the embedded \<^verbatim>\<open>Close()\<close> does
  to its \<^verbatim>\<open>sshConn\<close>: each calls \<^verbatim>\<open>Close\<close> once on the owned stream and returns its
  result; the outer one leaves the multiplexer and the transport as they were.
\<close>

theorem Close_outer_is_embedded:
  "connection_Close ops c =
     (fst (sshConn_Close ops (sshConn c)), c\<lparr>sshConn := snd (sshConn_Close ops (sshConn c))\<rparr>) \<and>
   sshConn_Close ops sc =
     (fst (stream_Close ops (stream sc)), sc\<lparr>stream := snd (stream_Close ops (stream sc))\<rparr>) \<and>
   mux (snd (connection_Close ops c)) = mux c \<and>
   transport (snd (connection_Close ops c)) = transport c"
  by (simp add: connection_Close_def sshConn_Close_def split: prod.splits)

text \<open>
  On a stream that writes a close frame at every \<^verbatim>\<open>Close()\<close>, the second
  \<^verbatim>\<open>Close()\<close> of the connection has an effect of its own: two frames are written.
\<close>

theorem Close_twice_counterexample:
  "connection_Close counting_ops (example_connection 0) = (None, example_connection 1) \<and>
   connection_Close counting_ops (example_connection 1) = (None, example_connection 2) \<and>
   snd (connection_Close counting_ops (snd (connection_Close counting_ops (example_connection 0))))
     \<noteq> snd (connection_Close counting_ops (example_connection 0))"
  by (simp add: connection_Close_def counting_ops_def example_connection_def)

text \<open>
  C6 (amended): every \<^verbatim>\<open>Close()\<close> calls \<^verbatim>\<open>Close\<close> once on the owned stream, returns
  that call's result and changes nothing else; the connection keeps no closed flag of its
  own, so the second \<^verbatim>\<open>Close()\<close> returns what the stream's second \<^verbatim>\<open>Close\<close>
  returns, and it leaves the connection as the first call left it exactly when the stream's
  \<^verbatim>\<open>Close\<close> leaves the closed stream as it is.
\<close>

theorem Close_twice:
  "connection_Close ops c =
     (fst (stream_Close ops (stream (sshConn c))),
      c\<lparr>sshConn := (sshConn c)\<lparr>stream := snd (stream_Close ops (stream (sshConn c)))\<rparr>\<rparr>) \<and>
   fst (connection_Close ops (snd (connection_Close ops c))) =
     fst (stream_Close ops (snd (stream_Close ops (stream (sshConn c))))) \<and>
   (snd (connection_Close ops (snd (connection_Close ops c))) = snd (connection_Close ops c)
      \<longleftrightarrow> snd (stream_Close ops (snd (stream_Close ops (stream (sshConn c)))))
            = snd (stream_Close ops (stream (sshConn c))))"
proof -
  define s1 where "s1 = snd (stream_Close ops (stream (sshConn c)))"
  define s2 where "s2 = snd (stream_Close ops s1)"
  have c1: "snd (connection_Close ops c) = c\<lparr>sshConn := (sshConn c)\<lparr>stream := s1\<rparr>\<rparr>"
    by (simp add: connection_Close_result s1_def)
  have c2: "snd (connection_Close ops (snd (connection_Close ops c))) =
              c\<lparr>sshConn := (sshConn c)\<lparr>stream := s2\<rparr>\<rparr>"
    by (simp add: connection_Close_result s1_def s2_def)
  have "c\<lparr>sshConn := (sshConn c)\<lparr>stream := s2\<rparr>\<rparr> = c\<lparr>sshConn := (sshConn c)\<lparr>stream := s1\<rparr>\<rparr>
          \<longleftrightarrow> s2 = s1"
  proof
    assume "c\<lparr>sshConn := (sshConn c)\<lparr>stream := s2\<rparr>\<rparr> = c\<lparr>sshConn := (sshConn c)\<lparr>stream := s1\<rparr>\<rparr>"
    then have "stream (sshConn (c\<lparr>sshConn := (sshConn c)\<lparr>stream := s2\<rparr>\<rparr>)) =
               stream (sshConn (c\<lparr>sshConn := (sshConn c)\<lparr>stream := s1\<rparr>\<rparr>))"
      by (rule arg_cong)
    then show "s2 = s1" by simp
  next
    assume "s2 = s1"
    then show "c\<lparr>sshConn := (sshConn c)\<lparr>stream := s2\<rparr>\<rparr> = c\<lparr>sshConn := (sshConn c)\<lparr>stream := s1\<rparr>\<rparr>"
      by simp
  qed
  then have "snd (connection_Close ops (snd (connection_Close ops c))) = snd (connection_Close ops c)
      \<longleftrightarrow> s2 = s1"
    by (subst c2, subst c1)
  moreover have "fst (connection_Close ops (snd (connection_Close ops c))) = fst (stream_Close ops s1)"
    by (simp add: connection_Close_result s1_def)
  ultimately show ?thesis
    unfolding s1_def s2_def using connection_Close_result [of ops c] by simp
qed

theorem Close_twice_witness:
  "snd (stream_Close latch_ops (snd (stream_Close latch_ops False))) = snd (stream_Close latch_ops False) \<and>
   connection_Close latch_ops (example_connection False) = (None, example_connection True) \<and>
   connection_Close latch_ops (example_connection True) = (Some ''stream closed'', example_connection True) \<and>
   snd (connection_Close latch_ops (snd (connection_Close latch_ops (example_connection False))))
     = snd (connection_Close latch_ops (example_connection False))"
proof -
  have i: "snd (stream_Close latch_ops (snd (stream_Close latch_ops False))) = snd (stream_Close latch_ops False)"
    by (simp add: latch_ops_def)
  have s: "stream (sshConn (example_connection False)) = False"
    by (simp add: example_connection_def)
  have "snd (connection_Close latch_ops (snd (connection_Close latch_ops (example_connection False))))
     = snd (connection_Close latch_ops (example_connection False))"
    by (simp only: Close_twice [of latch_ops "example_connection False", THEN conjunct2, THEN conjunct2] s i)
  moreover have "connection_Close latch_ops (example_connection False) = (None, example_connection True)"
    "connection_Close latch_ops (example_connection True) = (Some ''stream closed'', example_connection True)"
    by (simp_all add: connection_Close_def latch_ops_def example_connection_def)
  ultimately show ?thesis using i by simp
qed

subsection \<open>Addresses\<close>

text \<open>
  C8: \<^verbatim>\<open>RemoteMultiaddr()\<close> and \<^verbatim>\<open>LocalMultiaddr()\<close> return what the connection
  object of the stream reports for the stream's state at the call and store nothing; once
  the stream's state has changed, the next call reports the address of the new state.
\<close>

theorem Multiaddr_delegates:
  "RemoteMultiaddr ops w = (conn_RemoteMultiaddr ops (stream_Conn ops (stream (conn w))), w) \<and>
   LocalMultiaddr ops w = (conn_LocalMultiaddr ops (stream_Conn ops (stream (conn w))), w) \<and>
   fst (RemoteMultiaddr ops ((snd (RemoteMultiaddr ops w))\<lparr>conn := (conn w)\<lparr>stream := s'\<rparr>\<rparr>)) =
     conn_RemoteMultiaddr ops (stream_Conn ops s') \<and>
   fst (LocalMultiaddr ops ((snd (LocalMultiaddr ops w))\<lparr>conn := (conn w)\<lparr>stream := s'\<rparr>\<rparr>)) =
     conn_LocalMultiaddr ops (stream_Conn ops s')"
  by (simp add: RemoteMultiaddr_def LocalMultiaddr_def)

theorem Multiaddr_delegates_witness:
  "RemoteMultiaddr moving_ops example_state = ((0, 22), example_state) \<and>
   LocalMultiaddr moving_ops example_state = ((0, 4001), example_state) \<and>
   fst (RemoteMultiaddr moving_ops ((snd (RemoteMultiaddr moving_ops example_state))
        \<lparr>conn := (conn example_state)\<lparr>stream := 9\<rparr>\<rparr>)) = (9, 22) \<and>
   fst (LocalMultiaddr moving_ops ((snd (LocalMultiaddr moving_ops example_state))
        \<lparr>conn := (conn example_state)\<lparr>stream := 9\<rparr>\<rparr>)) = (9, 4001)"
proof -
  have s: "stream (conn example_state) = 0"
    by (simp add: example_state_def)
  show ?thesis
    using Multiaddr_delegates [of moving_ops example_state 9]
    by (simp add: RemoteMultiaddr_def LocalMultiaddr_def moving_ops_def s)
qed

subsection \<open>Accessors are read-only\<close>

lemma call_frame:
  "\<exists>w' ext. call ops a w = Inr w' \<and> conn w' = conn w \<and> mem w' = mem w @ ext"
  by (cases a)
    (simp_all add: User_def RemoteMultiaddr_def LocalMultiaddr_def SessionID_def
      ClientVersion_def ServerVersion_def dup_result)

lemma calls_frame:
  "\<exists>w' ext. calls ops as w = Inr w' \<and> conn w' = conn w \<and> mem w' = mem w @ ext"
proof (induction as arbitrary: w)
  case Nil
  then show ?case by simp
next
  case (Cons a as)
  from call_frame [of ops a w] obtain w1 e1 where
    1: "call ops a w = Inr w1" "conn w1 = conn w" "mem w1 = mem w @ e1" by blast
  from Cons.IH [of w1] obtain w2 e2 where
    2: "calls ops as w1 = Inr w2" "conn w2 = conn w1" "mem w2 = mem w1 @ e2" by blast
  from 1 2 have "calls ops (a # as) w = Inr w2 \<and> conn w2 = conn w \<and> mem w2 = mem w @ (e1 @ e2)"
    by simp
  then show ?case by blast
qed

text \<open>
  C9: in an established session, any sequence of calls of \<^verbatim>\<open>User\<close>, \<^verbatim>\<open>SessionID\<close>,
  \<^verbatim>\<open>ClientVersion\<close>, \<^verbatim>\<open>ServerVersion\<close>, \<^verbatim>\<open>RemoteMultiaddr\<close> and
  \<^verbatim>\<open>LocalMultiaddr\<close> runs without a panic, leaves the struct as it was, only adds arrays to
  the heap, and leaves the bytes of the session hash and of both version strings as they
  were; \<^verbatim>\<open>User()\<close> afterwards returns the same user as before, and the user also
  survives \<^verbatim>\<open>Close()\<close>.
\<close>

theorem accessors_read_only:
  assumes "valid_state w"
  shows "(\<exists>w'. calls ops as w = Inr w' \<and> conn w' = conn w \<and>
           (\<exists>ext. mem w' = mem w @ ext) \<and>
           slice_bytes (mem w') (sessionID (conn w')) = slice_bytes (mem w) (sessionID (conn w)) \<and>
           slice_bytes (mem w') (clientVersion (conn w')) = slice_bytes (mem w) (clientVersion (conn w)) \<and>
           slice_bytes (mem w') (serverVersion (conn w')) = slice_bytes (mem w) (serverVersion (conn w)) \<and>
           fst (User w') = fst (User w) \<and> fst (User w) = user (conn w)) \<and>
         user (snd (sshConn_Close ops (conn w))) = user (conn w)"
proof -
  from calls_frame [of ops as w] obtain w' ext where
    f: "calls ops as w = Inr w'" "conn w' = conn w" "mem w' = mem w @ ext" by blast
  with assms show ?thesis
    by (simp add: valid_state_def slice_bytes_append User_def sshConn_Close_def
        split: prod.splits)
qed

theorem accessors_read_only_witness:
  "valid_state example_state \<and>
   (\<exists>w'. calls moving_ops [GetSessionID, GetUser, GetRemoteMultiaddr, GetClientVersion,
             GetLocalMultiaddr, GetServerVersion] example_state = Inr w' \<and>
          conn w' = conn example_state \<and>
          slice_bytes (mem w') (sessionID (conn w')) = [1, 2, 3, 4] \<and>
          slice_bytes (mem w') (clientVersion (conn w')) = [2, 3] \<and>
          slice_bytes (mem w') (serverVersion (conn w')) = [] \<and>
          fst (User w') = ''alice'')"
proof -
  have v: "valid_state example_state"
    by (simp add: valid_state_def valid_slice_def example_state_def nil_slice_def)
  have b: "slice_bytes (mem example_state) (sessionID (conn example_state)) = [1, 2, 3, 4]"
    "slice_bytes (mem example_state) (clientVersion (conn example_state)) = [2, 3]"
    "slice_bytes (mem example_state) (serverVersion (conn example_state)) = []"
    "user (conn example_state) = ''alice''"
    by (simp_all add: slice_bytes_def example_state_def nil_slice_def)
  show ?thesis
    using v b accessors_read_only [OF v, of moving_ops "[GetSessionID, GetUser, GetRemoteMultiaddr,
      GetClientVersion, GetLocalMultiaddr, GetServerVersion]"]
    by auto
qed

end
